theory Spec2Isabelle
  imports Main "HOL-Library.Multiset"
begin

section \<open>Data model of \<open>kafka/client.py\<close>\<close>

text \<open>
  The client is a Python 2 class. Its collaborators (\<open>kafka.common\<close>, \<open>kafka.exception\<close>,
  \<open>kafka.connection\<close>, \<open>kafka.protocol\<close>) are imported, not defined, by \<open>client.py\<close>;
  they enter the model as the parameters \<open>network\<close> and \<open>KafkaProtocol\<close> below.
\<close>

type_synonym topic = string
type_synonym bytes = string

text \<open>\<open>TopicAndPartition(topic, partition)\<close>, and the key \<open>(host, port)\<close> of \<open>self.conns\<close>.\<close>

type_synonym TopicAndPartition = "topic \<times> int"
type_synonym address = "string \<times> int"

text \<open>The named tuples of \<open>kafka.common\<close> as far as the client reads their fields.\<close>

datatype BrokerMetadata = BrokerMetadata (nodeId: int) (host: string) (port: int)

datatype PartitionMetadata = PartitionMetadata (leader: int) (replicas: "int list") (isr: "int list")

text \<open>
  Payloads and responses are duck-typed: the client reads \<open>topic\<close> and \<open>partition\<close> of
  both and \<open>error\<close> of a response; the rest is carried along untouched.
\<close>

datatype payload = Payload (p_topic: topic) (p_partition: int) (p_body: string)

datatype response = Response (r_topic: topic) (r_partition: int) (r_error: int) (r_body: string)

text \<open>
  What a connection pool can raise. \<open>_send_broker_aware_request\<close> catches
  \<open>ConnectionError\<close> only, \<open>_send_broker_unaware_request\<close> catches everything.
\<close>

datatype pool_exception = ConnectionError | OtherException string

text \<open>
  The network is outside the program. Every call the client makes on a pool, and every
  \<open>time.sleep\<close>, is appended to a log together with its outcome; what a pool answers is an
  arbitrary function of the log so far and of the call. Quantifying over that function
  covers every behaviour of the brokers.
\<close>

datatype event =
    Requested address nat bytes "pool_exception + bytes"
  | Pushed address nat bytes "pool_exception option"
  | Slept nat

record network =
  request_outcome :: "event list \<Rightarrow> address \<Rightarrow> nat \<Rightarrow> bytes \<Rightarrow> pool_exception + bytes"
  push_outcome :: "event list \<Rightarrow> address \<Rightarrow> nat \<Rightarrow> bytes \<Rightarrow> pool_exception option"

text \<open>
  \<open>kafka.protocol.KafkaProtocol\<close>: the codec functions and the error-code table the client
  uses. A Python dict that the client iterates over is an association list in iteration
  order; a dict that is only looked up is a map.
\<close>

datatype exception_cls = UnknownException | MappedException string

type_synonym topic_metadata = "(topic \<times> (int \<times> PartitionMetadata) list) list"

record KafkaProtocol =
  encode_metadata_request :: "string \<Rightarrow> nat \<Rightarrow> topic list \<Rightarrow> bytes"
  decode_metadata_response :: "bytes \<Rightarrow> (int \<rightharpoonup> BrokerMetadata) \<times> topic_metadata"
  encode_produce_request :: "int \<Rightarrow> int \<Rightarrow> string \<Rightarrow> nat \<Rightarrow> payload list \<Rightarrow> bytes"
  decode_produce_response :: "bytes \<Rightarrow> response list"
  encode_fetch_request :: "int \<Rightarrow> int \<Rightarrow> string \<Rightarrow> nat \<Rightarrow> payload list \<Rightarrow> bytes"
  decode_fetch_response :: "bytes \<Rightarrow> response list"
  encode_offset_request :: "string \<Rightarrow> nat \<Rightarrow> payload list \<Rightarrow> bytes"
  decode_offset_response :: "bytes \<Rightarrow> response list"
  encode_offset_commit_request :: "string \<Rightarrow> string \<Rightarrow> nat \<Rightarrow> payload list \<Rightarrow> bytes"
  decode_offset_commit_response :: "bytes \<Rightarrow> response list"
  encode_offset_fetch_request :: "string \<Rightarrow> string \<Rightarrow> nat \<Rightarrow> payload list \<Rightarrow> bytes"
  decode_offset_fetch_response :: "bytes \<Rightarrow> response list"
  ERROR_CODE_MAPPING :: "int \<rightharpoonup> exception_cls"

text \<open>
  The exceptions that leave the client. \<open>ApiError\<close> is what a facade raises: the class
  taken from the table, the request kind named in the message, the
  \<open>TopicAndPartition\<close> when the message contains one, and the error code.
\<close>

datatype error =
    AllServersFailed
  | PartitionDoesNotExist TopicAndPartition
  | FailedPayloadsException "payload list"
  | BrokerKeyError int
  | ResponseKeyError TopicAndPartition
  | PoolException pool_exception
  | ApiError exception_cls string "TopicAndPartition option" int

text \<open>
  The instance state, the class-level counter \<open>ID_GEN\<close> and the log of the network.
  \<open>conns\<close> holds the keys of \<open>self.conns\<close> in iteration order (the pool objects
  themselves live in the network). Where a new key lands in that order is up to the hash
  table; the model puts it at the end, and what is proved about the iteration over
  \<open>self.conns\<close> is proved for every list.
\<close>

record client =
  client_id :: string
  conns :: "address list"
  brokers :: "int \<rightharpoonup> BrokerMetadata"
  topics_to_brokers :: "TopicAndPartition \<rightharpoonup> BrokerMetadata"
  topic_partitions :: "topic \<rightharpoonup> int list"
  ID_GEN :: nat
  log :: "event list"

text \<open>
  A call returns its result, or the exception it raised, together with the state it left
  behind. \<open>None\<close> stands for a call that does not return.
\<close>

type_synonym 'a outcome = "((error + 'a) \<times> client) option"

section \<open>Private API\<close>

definition conn_request :: "network \<Rightarrow> address \<Rightarrow> nat \<Rightarrow> bytes \<Rightarrow> client \<Rightarrow> (pool_exception + bytes) \<times> client" where
  "conn_request net conn request_id request st =
     (let r = request_outcome net (log st) conn request_id request
      in (r, st\<lparr>log := log st @ [Requested conn request_id request r]\<rparr>))"

definition conn_push :: "network \<Rightarrow> address \<Rightarrow> nat \<Rightarrow> bytes \<Rightarrow> client \<Rightarrow> pool_exception option \<times> client" where
  "conn_push net conn request_id request st =
     (let r = push_outcome net (log st) conn request_id request
      in (r, st\<lparr>log := log st @ [Pushed conn request_id request r]\<rparr>))"

definition sleep :: "nat \<Rightarrow> client \<Rightarrow> client" where
  "sleep n st = st\<lparr>log := log st @ [Slept n]\<rparr>"

definition next_id :: "client \<Rightarrow> nat \<times> client" where
  "next_id st = (ID_GEN st, st\<lparr>ID_GEN := Suc (ID_GEN st)\<rparr>)"

definition get_conn_for_broker :: "BrokerMetadata \<Rightarrow> client \<Rightarrow> address \<times> client" where
  "get_conn_for_broker broker st =
     (if (host broker, port broker) \<notin> set (conns st)
      then ((host broker, port broker), st\<lparr>conns := conns st @ [(host broker, port broker)]\<rparr>)
      else ((host broker, port broker), st))"

text \<open>The loop of \<open>_send_broker_unaware_request\<close> over \<open>self.conns.values()\<close>.\<close>

fun unaware_loop :: "network \<Rightarrow> nat \<Rightarrow> bytes \<Rightarrow> address list \<Rightarrow> client \<Rightarrow> bytes option \<times> client" where
  "unaware_loop net request_id request [] st = (None, st)"
| "unaware_loop net request_id request (conn # rest) st =
     (case conn_request net conn request_id request st of
        (Inr resp, st') \<Rightarrow> (Some resp, st')
      | (Inl e, st') \<Rightarrow> unaware_loop net request_id request rest st')"

definition send_broker_unaware_request :: "network \<Rightarrow> nat \<Rightarrow> bytes \<Rightarrow> client \<Rightarrow> bytes option \<times> client" where
  "send_broker_unaware_request net request_id request st =
     unaware_loop net request_id request (conns st) st"

text \<open>
  \<open>_load_metadata_for_topics\<close> calls itself from inside its two loops and nothing bounds
  the depth; the first argument after the parameters is the number of nested calls
  allowed, and running out of it is \<open>None\<close>.
\<close>

definition commit_partition :: "topic \<Rightarrow> int \<Rightarrow> BrokerMetadata \<Rightarrow> client \<Rightarrow> client" where
  "commit_partition topic partition' b st =
     st\<lparr>topics_to_brokers := (topics_to_brokers st)((topic, partition') \<mapsto> b),
        topic_partitions := (topic_partitions st)
          (topic \<mapsto> (case topic_partitions st topic of None \<Rightarrow> [] | Some ps \<Rightarrow> ps) @ [partition'])\<rparr>"

function (sequential) load_metadata_for_topics :: "network \<Rightarrow> KafkaProtocol \<Rightarrow> nat \<Rightarrow> topic list \<Rightarrow> client \<Rightarrow> unit outcome"
  and topics_loop :: "network \<Rightarrow> KafkaProtocol \<Rightarrow> nat \<Rightarrow> (int \<rightharpoonup> BrokerMetadata) \<Rightarrow> topic_metadata \<Rightarrow> client \<Rightarrow> unit outcome"
  and partitions_loop :: "network \<Rightarrow> KafkaProtocol \<Rightarrow> nat \<Rightarrow> (int \<rightharpoonup> BrokerMetadata) \<Rightarrow> topic \<Rightarrow> (int \<times> PartitionMetadata) list \<Rightarrow> client \<Rightarrow> unit outcome"
where
  "load_metadata_for_topics net proto 0 topics st = None"
| "load_metadata_for_topics net proto (Suc n) topics st =
     (case next_id st of (request_id, st1) \<Rightarrow>
      case send_broker_unaware_request net request_id
             (encode_metadata_request proto (client_id st1) request_id topics) st1 of
        (None, st2) \<Rightarrow> Some (Inl AllServersFailed, st2)
      | (Some resp, st2) \<Rightarrow>
          (case decode_metadata_response proto resp of (brokers', topics') \<Rightarrow>
             topics_loop net proto n brokers' topics'
               (st2\<lparr>brokers := brokers', topics_to_brokers := Map.empty\<rparr>)))"
| "topics_loop net proto n brokers' [] st = Some (Inr (), st)"
| "topics_loop net proto n brokers' ((topic, partitions) # rest) st =
     (let st1 = st\<lparr>topic_partitions := (topic_partitions st)(topic := None)\<rparr> in
      if partitions = []
      then load_metadata_for_topics net proto n [topic] (sleep 1 st1)
      else (case partitions_loop net proto n brokers' topic partitions st1 of
              None \<Rightarrow> None
            | Some (Inl e, st2) \<Rightarrow> Some (Inl e, st2)
            | Some (Inr u, st2) \<Rightarrow> topics_loop net proto n brokers' rest st2))"
| "partitions_loop net proto n brokers' topic [] st = Some (Inr (), st)"
| "partitions_loop net proto n brokers' topic ((partition', meta) # rest) st =
     (if leader meta = - 1
      then (case load_metadata_for_topics net proto n [topic] (sleep 1 st) of
              None \<Rightarrow> None
            | Some (Inl e, st') \<Rightarrow> Some (Inl e, st')
            | Some (Inr u, st') \<Rightarrow> partitions_loop net proto n brokers' topic rest st')
      else (case brokers' (leader meta) of
              None \<Rightarrow> Some (Inl (BrokerKeyError (leader meta)), st)
            | Some b \<Rightarrow>
                partitions_loop net proto n brokers' topic rest
                  (commit_partition topic partition' b st)))"
  by pat_completeness auto
termination
  by (relation "measures
        [\<lambda>x. case x of Inl (net, proto, n, topics, st) \<Rightarrow> n
                   | Inr (Inl (net, proto, n, bs, tps, st)) \<Rightarrow> n
                   | Inr (Inr (net, proto, n, bs, t, ps, st)) \<Rightarrow> n,
         \<lambda>x. case x of Inl (net, proto, n, topics, st) \<Rightarrow> 0
                   | Inr (Inl (net, proto, n, bs, tps, st)) \<Rightarrow> 2
                   | Inr (Inr (net, proto, n, bs, t, ps, st)) \<Rightarrow> 1,
         \<lambda>x. case x of Inl (net, proto, n, topics, st) \<Rightarrow> 0
                   | Inr (Inl (net, proto, n, bs, tps, st)) \<Rightarrow> length tps
                   | Inr (Inr (net, proto, n, bs, t, ps, st)) \<Rightarrow> length ps]") auto

definition get_leader_for_partition :: "network \<Rightarrow> KafkaProtocol \<Rightarrow> nat \<Rightarrow> topic \<Rightarrow> int \<Rightarrow> client \<Rightarrow> BrokerMetadata outcome" where
  "get_leader_for_partition net proto n topic partition' st =
     (let key = (topic, partition') in
      case (if topics_to_brokers st key = None
            then load_metadata_for_topics net proto n [topic] st
            else Some (Inr (), st)) of
        None \<Rightarrow> None
      | Some (Inl e, st') \<Rightarrow> Some (Inl e, st')
      | Some (Inr u, st') \<Rightarrow>
          (case topics_to_brokers st' key of
             None \<Rightarrow> Some (Inl (PartitionDoesNotExist key), st')
           | Some b \<Rightarrow> Some (Inr b, st')))"

text \<open>
  \<open>_group_request\<close>. \<open>payloads_by_broker\<close> is a \<open>defaultdict(list)\<close>: an association
  list that holds the leaders in the order in which they were inserted. The caller iterates
  over \<open>payloads_by_broker.items()\<close>, and a Python 2 dict yields its items in the order of
  its hash table, not in the order of insertion. That order is a parameter of the model,
  \<open>items\<close>: it takes the dict and returns its items in the order of the iteration.
\<close>

type_synonym groups = "(BrokerMetadata \<times> payload list) list"

type_synonym items_order = "groups \<Rightarrow> groups"

fun append_payload :: "BrokerMetadata \<Rightarrow> payload \<Rightarrow> groups \<Rightarrow> groups" where
  "append_payload leader' p [] = [(leader', [p])]"
| "append_payload leader' p ((b, ps) # rest) =
     (if b = leader' then (b, ps @ [p]) # rest else (b, ps) # append_payload leader' p rest)"

fun group_loop :: "network \<Rightarrow> KafkaProtocol \<Rightarrow> nat \<Rightarrow> payload list \<Rightarrow> TopicAndPartition list \<times> groups \<Rightarrow> client \<Rightarrow> (TopicAndPartition list \<times> groups) outcome" where
  "group_loop net proto n [] grouped st = Some (Inr grouped, st)"
| "group_loop net proto n (p # rest) (original_keys, payloads_by_broker) st =
     (case get_leader_for_partition net proto n (p_topic p) (p_partition p) st of
        None \<Rightarrow> None
      | Some (Inl e, st') \<Rightarrow> Some (Inl e, st')
      | Some (Inr leader', st') \<Rightarrow>
          group_loop net proto n rest
            (original_keys @ [(p_topic p, p_partition p)],
             append_payload leader' p payloads_by_broker) st')"

definition group_request :: "network \<Rightarrow> KafkaProtocol \<Rightarrow> nat \<Rightarrow> payload list \<Rightarrow> client \<Rightarrow> (TopicAndPartition list \<times> groups) outcome" where
  "group_request net proto n payloads st = group_loop net proto n payloads ([], []) st"

text \<open>
  \<open>_send_broker_aware_request\<close>. The accumulator \<open>acc\<close> is tested for emptiness, so it is
  an association list; \<open>acc[k] = v\<close> replaces the value of an existing key.
\<close>

type_synonym accumulator = "(TopicAndPartition \<times> response) list"

fun acc_set :: "TopicAndPartition \<Rightarrow> response \<Rightarrow> accumulator \<Rightarrow> accumulator" where
  "acc_set k v [] = [(k, v)]"
| "acc_set k v ((k', v') # rest) =
     (if k' = k then (k, v) # rest else (k', v') # acc_set k v rest)"

fun accumulate :: "response list \<Rightarrow> accumulator \<Rightarrow> accumulator" where
  "accumulate [] acc = acc"
| "accumulate (r # rs) acc = accumulate rs (acc_set (r_topic r, r_partition r) r acc)"

type_synonym encoder_fn = "string \<Rightarrow> nat \<Rightarrow> payload list \<Rightarrow> bytes"
type_synonym decoder_fn = "bytes \<Rightarrow> response list"

text \<open>One pass of the loop over \<open>payloads_by_broker.items()\<close>; \<open>Inl\<close> is an exception that
  the \<open>except ConnectionError\<close> clause does not catch.\<close>

definition dispatch :: "network \<Rightarrow> encoder_fn \<Rightarrow> decoder_fn option \<Rightarrow> BrokerMetadata \<times> payload list \<Rightarrow> client \<times> accumulator \<times> payload list \<Rightarrow> (error \<times> client) + (client \<times> accumulator \<times> payload list)" where
  "dispatch net encoder decoder grp s =
     (case grp of (broker, payloads) \<Rightarrow>
      case s of (st, acc, failed_payloads) \<Rightarrow>
      case get_conn_for_broker broker st of (conn, st1) \<Rightarrow>
      case next_id st1 of (request_id, st2) \<Rightarrow>
      let request = encoder (client_id st2) request_id payloads in
      case decoder of
        None \<Rightarrow>
          (case conn_push net conn request_id request st2 of
             (Some ConnectionError, st3) \<Rightarrow>
               Inr (st3\<lparr>topics_to_brokers := Map.empty\<rparr>, acc, failed_payloads @ payloads)
           | (Some (OtherException x), st3) \<Rightarrow> Inl (PoolException (OtherException x), st3)
           | (None, st3) \<Rightarrow> Inr (st3, acc, failed_payloads))
      | Some decode \<Rightarrow>
          (case conn_request net conn request_id request st2 of
             (Inl ConnectionError, st3) \<Rightarrow>
               Inr (st3\<lparr>topics_to_brokers := Map.empty\<rparr>, acc, failed_payloads @ payloads)
           | (Inl (OtherException x), st3) \<Rightarrow> Inl (PoolException (OtherException x), st3)
           | (Inr resp, st3) \<Rightarrow> Inr (st3, accumulate (decode resp) acc, failed_payloads)))"

fun dispatch_loop :: "network \<Rightarrow> encoder_fn \<Rightarrow> decoder_fn option \<Rightarrow> groups \<Rightarrow> client \<times> accumulator \<times> payload list \<Rightarrow> (error \<times> client) + (client \<times> accumulator \<times> payload list)" where
  "dispatch_loop net encoder decoder [] s = Inr s"
| "dispatch_loop net encoder decoder (grp # rest) s =
     (case dispatch net encoder decoder grp s of
        Inl e \<Rightarrow> Inl e
      | Inr s' \<Rightarrow> dispatch_loop net encoder decoder rest s')"

text \<open>
  What the call returns: the generator \<open>(acc[k] for k in original_keys)\<close>, which looks the
  keys up only when it is consumed, or the empty tuple.
\<close>

datatype responses = Generator accumulator "TopicAndPartition list" | EmptyTuple

definition send_broker_aware_request :: "network \<Rightarrow> KafkaProtocol \<Rightarrow> items_order \<Rightarrow> nat \<Rightarrow> payload list \<Rightarrow> encoder_fn \<Rightarrow> decoder_fn option \<Rightarrow> client \<Rightarrow> responses outcome" where
  "send_broker_aware_request net proto items n payloads encoder decoder st =
     (case group_request net proto n payloads st of
        None \<Rightarrow> None
      | Some (Inl e, st1) \<Rightarrow> Some (Inl e, st1)
      | Some (Inr (original_keys, payloads_by_broker), st1) \<Rightarrow>
          (case dispatch_loop net encoder decoder (items payloads_by_broker) (st1, [], []) of
             Inl (e, st2) \<Rightarrow> Some (Inl e, st2)
           | Inr (st2, acc, failed_payloads) \<Rightarrow>
               if failed_payloads \<noteq> [] then Some (Inl (FailedPayloadsException failed_payloads), st2)
               else Some (Inr (if acc \<noteq> [] then Generator acc original_keys else EmptyTuple), st2)))"

text \<open>Consuming the returned sequence to its end, as \<open>list(...)\<close> does.\<close>

fun generate :: "accumulator \<Rightarrow> TopicAndPartition list \<Rightarrow> error + response list" where
  "generate acc [] = Inr []"
| "generate acc (k # ks) =
     (case map_of acc k of
        None \<Rightarrow> Inl (ResponseKeyError k)
      | Some r \<Rightarrow> (case generate acc ks of Inl e \<Rightarrow> Inl e | Inr rs \<Rightarrow> Inr (r # rs)))"

definition consume :: "responses \<Rightarrow> error + response list" where
  "consume resps = (case resps of EmptyTuple \<Rightarrow> Inr [] | Generator acc ks \<Rightarrow> generate acc ks)"

section \<open>Public API\<close>

text \<open>
  The five facades run the same loop over the returned sequence and differ in the
  exception they build; \<open>mk_error\<close> is that difference. The loop draws one response at
  a time from the generator, so a missing key is met only after the responses before it
  have been checked.
\<close>

fun check_loop :: "KafkaProtocol \<Rightarrow> (exception_cls \<Rightarrow> response \<Rightarrow> error) \<Rightarrow> bool \<Rightarrow> accumulator \<Rightarrow> TopicAndPartition list \<Rightarrow> response list \<Rightarrow> error + response list" where
  "check_loop proto mk_error fail_on_error acc [] out = Inr out"
| "check_loop proto mk_error fail_on_error acc (k # ks) out =
     (case map_of acc k of
        None \<Rightarrow> Inl (ResponseKeyError k)
      | Some resp \<Rightarrow>
          if fail_on_error \<and> r_error resp \<noteq> 0
          then Inl (mk_error (case ERROR_CODE_MAPPING proto (r_error resp) of
                                None \<Rightarrow> UnknownException | Some c \<Rightarrow> c) resp)
          else check_loop proto mk_error fail_on_error acc ks (out @ [resp]))"

definition check_responses :: "KafkaProtocol \<Rightarrow> (exception_cls \<Rightarrow> response \<Rightarrow> error) \<Rightarrow> bool \<Rightarrow> responses \<Rightarrow> error + response list" where
  "check_responses proto mk_error fail_on_error resps =
     (case resps of
        EmptyTuple \<Rightarrow> Inr []
      | Generator acc ks \<Rightarrow> check_loop proto mk_error fail_on_error acc ks [])"

definition finish :: "KafkaProtocol \<Rightarrow> (exception_cls \<Rightarrow> response \<Rightarrow> error) \<Rightarrow> bool \<Rightarrow> responses outcome \<Rightarrow> response list outcome" where
  "finish proto mk_error fail_on_error r =
     (case r of
        None \<Rightarrow> None
      | Some (Inl e, st') \<Rightarrow> Some (Inl e, st')
      | Some (Inr resps, st') \<Rightarrow> Some (check_responses proto mk_error fail_on_error resps, st'))"

definition produce_error :: "exception_cls \<Rightarrow> response \<Rightarrow> error" where
  "produce_error cls resp =
     ApiError cls ''ProduceRequest'' (Some (r_topic resp, r_partition resp)) (r_error resp)"

definition fetch_error :: "exception_cls \<Rightarrow> response \<Rightarrow> error" where
  "fetch_error cls resp =
     ApiError cls ''FetchRequest'' (Some (r_topic resp, r_partition resp)) (r_error resp)"

definition offset_error :: "exception_cls \<Rightarrow> response \<Rightarrow> error" where
  "offset_error cls resp = ApiError cls ''OffsetRequest'' None (r_error resp)"

definition offset_commit_error :: "exception_cls \<Rightarrow> response \<Rightarrow> error" where
  "offset_commit_error cls resp = ApiError cls ''OffsetCommitRequest'' None (r_error resp)"

text \<open>The message of \<open>send_offset_fetch_request\<close> names \<open>OffsetCommitRequest\<close> too.\<close>

definition offset_fetch_error :: "exception_cls \<Rightarrow> response \<Rightarrow> error" where
  "offset_fetch_error cls resp = ApiError cls ''OffsetCommitRequest'' None (r_error resp)"

definition send_produce_request :: "network \<Rightarrow> KafkaProtocol \<Rightarrow> items_order \<Rightarrow> nat \<Rightarrow> payload list \<Rightarrow> int \<Rightarrow> int \<Rightarrow> bool \<Rightarrow> client \<Rightarrow> response list outcome" where
  "send_produce_request net proto items n payloads acks timeout fail_on_error st =
     (let encoder = encode_produce_request proto acks timeout;
          decoder = (if acks = 0 then None else Some (decode_produce_response proto))
      in finish proto produce_error fail_on_error
           (send_broker_aware_request net proto items n payloads encoder decoder st))"

definition send_fetch_request :: "network \<Rightarrow> KafkaProtocol \<Rightarrow> items_order \<Rightarrow> nat \<Rightarrow> payload list \<Rightarrow> bool \<Rightarrow> int \<Rightarrow> int \<Rightarrow> client \<Rightarrow> response list outcome" where
  "send_fetch_request net proto items n payloads fail_on_error max_wait_time min_bytes st =
     (let encoder = encode_fetch_request proto max_wait_time min_bytes
      in finish proto fetch_error fail_on_error
           (send_broker_aware_request net proto items n payloads encoder
              (Some (decode_fetch_response proto)) st))"

definition send_offset_request :: "network \<Rightarrow> KafkaProtocol \<Rightarrow> items_order \<Rightarrow> nat \<Rightarrow> payload list \<Rightarrow> bool \<Rightarrow> client \<Rightarrow> response list outcome" where
  "send_offset_request net proto items n payloads fail_on_error st =
     finish proto offset_error fail_on_error
       (send_broker_aware_request net proto items n payloads (encode_offset_request proto)
          (Some (decode_offset_response proto)) st)"

definition send_offset_commit_request :: "network \<Rightarrow> KafkaProtocol \<Rightarrow> items_order \<Rightarrow> nat \<Rightarrow> string \<Rightarrow> payload list \<Rightarrow> bool \<Rightarrow> client \<Rightarrow> response list outcome" where
  "send_offset_commit_request net proto items n group' payloads fail_on_error st =
     (let encoder = encode_offset_commit_request proto group';
          decoder = decode_offset_commit_response proto
      in finish proto offset_commit_error fail_on_error
           (send_broker_aware_request net proto items n payloads encoder (Some decoder) st))"

definition send_offset_fetch_request :: "network \<Rightarrow> KafkaProtocol \<Rightarrow> items_order \<Rightarrow> nat \<Rightarrow> string \<Rightarrow> payload list \<Rightarrow> bool \<Rightarrow> client \<Rightarrow> response list outcome" where
  "send_offset_fetch_request net proto items n group' payloads fail_on_error st =
     (let encoder = encode_offset_fetch_request proto group';
          decoder = decode_offset_fetch_response proto
      in finish proto offset_fetch_error fail_on_error
           (send_broker_aware_request net proto items n payloads encoder (Some decoder) st))"

text \<open>
  \<open>__init__\<close>: one pool for the bootstrap address, empty caches, then the unqualified
  refresh. \<open>ID_GEN\<close> belongs to the class and the log to the network, so both are given.
\<close>

definition init :: "network \<Rightarrow> KafkaProtocol \<Rightarrow> nat \<Rightarrow> string \<Rightarrow> int \<Rightarrow> string \<Rightarrow> nat \<Rightarrow> event list \<Rightarrow> unit outcome" where
  "init net proto n host' port' client_id' id_gen log' =
     load_metadata_for_topics net proto n []
       \<lparr>client_id = client_id', conns = [(host', port')], brokers = Map.empty,
        topics_to_brokers = Map.empty, topic_partitions = Map.empty,
        ID_GEN = id_gen, log = log'\<rparr>"

section \<open>A scripted network and a small codec for concrete runs\<close>

text \<open>
  The \<open>k\<close>-th call on any pool is answered by the \<open>k\<close>-th entry of the script; past the
  end of the script every call raises \<open>ConnectionError\<close>. The concrete runs take \<open>rev\<close> for
  the iteration order of \<open>payloads_by_broker\<close>: the leader inserted last is dispatched first.
\<close>

fun pool_calls :: "event list \<Rightarrow> nat" where
  "pool_calls [] = 0"
| "pool_calls (Slept n # evs) = pool_calls evs"
| "pool_calls (Requested c i r out # evs) = Suc (pool_calls evs)"
| "pool_calls (Pushed c i r out # evs) = Suc (pool_calls evs)"

definition scripted :: "(pool_exception + bytes) list \<Rightarrow> network" where
  "scripted script =
     \<lparr>request_outcome = (\<lambda>lg conn request_id request.
        if pool_calls lg < length script then script ! pool_calls lg else Inl ConnectionError),
      push_outcome = (\<lambda>lg conn request_id request.
        if pool_calls lg < length script
        then (case script ! pool_calls lg of Inl e \<Rightarrow> Some e | Inr resp \<Rightarrow> None)
        else Some ConnectionError)\<rparr>"

definition broker1 :: BrokerMetadata where "broker1 = BrokerMetadata 1 ''h1'' 9092"
definition broker2 :: BrokerMetadata where "broker2 = BrokerMetadata 2 ''h2'' 9092"

definition on_leader :: "int \<Rightarrow> PartitionMetadata" where
  "on_leader l = PartitionMetadata l [] []"

definition stub_decode_metadata :: "bytes \<Rightarrow> (int \<rightharpoonup> BrokerMetadata) \<times> topic_metadata" where
  "stub_decode_metadata resp =
     (if resp = ''t:1,1'' then ([1 \<mapsto> broker1], [(''t'', [(0, on_leader 1), (1, on_leader 1)])])
      else if resp = ''t:1,2'' then ([1 \<mapsto> broker1, 2 \<mapsto> broker2], [(''t'', [(0, on_leader 1), (1, on_leader 2)])])
      else if resp = ''t:-'' then ([1 \<mapsto> broker1], [(''t'', [(0, on_leader (- 1))])])
      else if resp = ''t:1'' then ([1 \<mapsto> broker1], [(''t'', [(0, on_leader 1)])])
      else if resp = ''t:-,1'' then ([1 \<mapsto> broker1], [(''t'', [(0, on_leader (- 1)), (1, on_leader 1)])])
      else if resp = ''t:2,2'' then ([2 \<mapsto> broker2], [(''t'', [(0, on_leader 2), (1, on_leader 2)])])
      else if resp = ''a:;b:1'' then ([1 \<mapsto> broker1], [(''a'', []), (''b'', [(0, on_leader 1)])])
      else if resp = ''a:1'' then ([1 \<mapsto> broker1], [(''a'', [(0, on_leader 1)])])
      else if resp = ''b:1'' then ([1 \<mapsto> broker1], [(''b'', [(0, on_leader 1)])])
      else (Map.empty, []))"

definition stub_decode :: "bytes \<Rightarrow> response list" where
  "stub_decode resp =
     (if resp = ''t0'' then [Response ''t'' 0 0 ''x'']
      else if resp = ''t1'' then [Response ''t'' 1 0 ''y'']
      else if resp = ''t0,t1'' then [Response ''t'' 0 0 ''x'', Response ''t'' 1 0 ''y'']
      else if resp = ''t0!3'' then [Response ''t'' 0 3 ''x'']
      else [])"

definition stub_protocol :: KafkaProtocol where
  "stub_protocol =
     \<lparr>encode_metadata_request = (\<lambda>cid rid topics. ''metadata''),
      decode_metadata_response = stub_decode_metadata,
      encode_produce_request = (\<lambda>acks timeout cid rid ps. ''produce''),
      decode_produce_response = stub_decode,
      encode_fetch_request = (\<lambda>max_wait_time min_bytes cid rid ps. ''fetch''),
      decode_fetch_response = stub_decode,
      encode_offset_request = (\<lambda>cid rid ps. ''offset''),
      decode_offset_response = stub_decode,
      encode_offset_commit_request = (\<lambda>grp cid rid ps. ''offset_commit''),
      decode_offset_commit_response = stub_decode,
      encode_offset_fetch_request = (\<lambda>grp cid rid ps. ''offset_fetch''),
      decode_offset_fetch_response = stub_decode,
      ERROR_CODE_MAPPING = [3 \<mapsto> MappedException ''UnknownTopicOrPartitionError'']\<rparr>"

definition fresh_client :: client where
  "fresh_client =
     \<lparr>client_id = ''kafka-python'', conns = [(''h1'', 9092)], brokers = Map.empty,
      topics_to_brokers = Map.empty, topic_partitions = Map.empty, ID_GEN = 0, log = []\<rparr>"

definition cached_client :: client where
  "cached_client =
     fresh_client\<lparr>brokers := [1 \<mapsto> broker1], topics_to_brokers := [(''t'', 0) \<mapsto> broker1],
       topic_partitions := [''t'' \<mapsto> [0]], ID_GEN := 1\<rparr>"

definition two_pool_client :: client where
  "two_pool_client = cached_client\<lparr>conns := [(''h1'', 9092), (''h2'', 9092)]\<rparr>"

section \<open>Observations used to state the properties\<close>

text \<open>What a finished call returned and what it left in the instance.\<close>

definition result_of :: "'a outcome \<Rightarrow> (error + 'a) option" where
  "result_of out = map_option fst out"

definition leader_after :: "'a outcome \<Rightarrow> TopicAndPartition \<Rightarrow> BrokerMetadata option" where
  "leader_after out key = (case out of None \<Rightarrow> None | Some (r, st') \<Rightarrow> topics_to_brokers st' key)"

definition broker_after :: "'a outcome \<Rightarrow> int \<Rightarrow> BrokerMetadata option" where
  "broker_after out i = (case out of None \<Rightarrow> None | Some (r, st') \<Rightarrow> brokers st' i)"

definition partitions_after :: "'a outcome \<Rightarrow> topic \<Rightarrow> int list option" where
  "partitions_after out t = (case out of None \<Rightarrow> None | Some (r, st') \<Rightarrow> topic_partitions st' t)"

definition log_after :: "'a outcome \<Rightarrow> event list" where
  "log_after out = (case out of None \<Rightarrow> [] | Some (r, st') \<Rightarrow> log st')"

text \<open>The keys the router reads off a payload and off a response.\<close>

definition payload_key :: "payload \<Rightarrow> TopicAndPartition" where
  "payload_key p = (p_topic p, p_partition p)"

definition response_key :: "response \<Rightarrow> TopicAndPartition" where
  "response_key r = (r_topic r, r_partition r)"

text \<open>Reading the log: what a logged call raised, whom it addressed, what it answered.\<close>

fun raised :: "event \<Rightarrow> pool_exception option" where
  "raised (Requested c i r (Inl e)) = Some e"
| "raised (Requested c i r (Inr resp)) = None"
| "raised (Pushed c i r out) = out"
| "raised (Slept n) = None"

fun event_address :: "event \<Rightarrow> address option" where
  "event_address (Requested c i r out) = Some c"
| "event_address (Pushed c i r out) = Some c"
| "event_address (Slept n) = None"

fun answers :: "event list \<Rightarrow> bytes list" where
  "answers [] = []"
| "answers (Requested c i r (Inr resp) # evs) = resp # answers evs"
| "answers (Requested c i r (Inl e) # evs) = answers evs"
| "answers (Pushed c i r out # evs) = answers evs"
| "answers (Slept n # evs) = answers evs"

text \<open>The topics that the metadata responses among the logged answers report.\<close>

definition reported_topics :: "KafkaProtocol \<Rightarrow> event list \<Rightarrow> topic set" where
  "reported_topics proto evs =
     (\<Union>resp \<in> set (answers evs). fst ` set (snd (decode_metadata_response proto resp)))"


text \<open>The leader groups whose logged call raised \<open>ConnectionError\<close>, by position.\<close>

definition failed_groups :: "groups \<Rightarrow> event list \<Rightarrow> groups" where
  "failed_groups grps evs =
     map fst (filter (\<lambda>ge. raised (snd ge) = Some ConnectionError) (zip grps evs))"



text \<open>
  What a refresh leaves alone, read off the log: \<open>evs\<close> is what the call added to the
  log, and for every topic outside \<open>X\<close> that no logged metadata answer reports, the
  partition list is as before, and the leader entries are as before when no answer arrived
  and gone when one did.
\<close>

definition kept :: "KafkaProtocol \<Rightarrow> topic set \<Rightarrow> client \<Rightarrow> event list \<Rightarrow> client \<Rightarrow> bool" where
  "kept proto X st evs st' \<longleftrightarrow>
     log st' = log st @ evs \<and>
     (\<forall>t. t \<notin> X \<union> reported_topics proto evs \<longrightarrow>
        topic_partitions st' t = topic_partitions st t \<and>
        (\<forall>p. topics_to_brokers st' (t, p)
               = (if answers evs = [] then topics_to_brokers st (t, p) else None)))"

section \<open>Leader lookup\<close>

text \<open>
  C3. \<open>_get_leader_for_partition\<close>: a key that is cached is returned as it is and the
  instance, the id counter and the network log stay exactly as they were, so no refresh
  happens (and no nested call is needed: the depth bound may be 0). A key that is not
  cached makes one call of \<open>_load_metadata_for_topics(topic)\<close>; an exception of that
  call is passed on, and after it returned the key is looked up again: still absent is
  the exception "Partition does not exist", present is the leader.
\<close>

theorem get_leader_cached_or_one_refresh:
  "(topics_to_brokers st (topic, p) = Some b \<longrightarrow>
      get_leader_for_partition net proto n topic p st = Some (Inr b, st)) \<and>
   (topics_to_brokers st (topic, p) = None \<longrightarrow>
      get_leader_for_partition net proto n topic p st =
        (case load_metadata_for_topics net proto n [topic] st of
           None \<Rightarrow> None
         | Some (Inl e, st') \<Rightarrow> Some (Inl e, st')
         | Some (Inr u, st') \<Rightarrow>
             (case topics_to_brokers st' (topic, p) of
                None \<Rightarrow> Some (Inl (PartitionDoesNotExist (topic, p)), st')
              | Some b' \<Rightarrow> Some (Inr b', st'))))"
  by (simp add: get_leader_for_partition_def Let_def)

theorem get_leader_cached_or_one_refresh_witness:
  "topics_to_brokers cached_client (''t'', 0) = Some broker1 \<and>
   get_leader_for_partition (scripted []) stub_protocol 0 ''t'' 0 cached_client
     = Some (Inr broker1, cached_client) \<and>
   topics_to_brokers cached_client (''t'', 1) = None \<and>
   result_of (get_leader_for_partition (scripted [Inr ''t:1,1'']) stub_protocol 1 ''t'' 1 cached_client)
     = Some (Inr broker1) \<and>
   result_of (get_leader_for_partition (scripted [Inr ''t:1'']) stub_protocol 1 ''t'' 1 cached_client)
     = Some (Inl (PartitionDoesNotExist (''t'', 1)))"
proof -
  have c: "topics_to_brokers cached_client (''t'', 0) = Some broker1"
    by (simp add: cached_client_def)
  have m: "topics_to_brokers cached_client (''t'', 1) = None"
    by (simp add: cached_client_def)
  have r1: "result_of
      (case load_metadata_for_topics (scripted [Inr ''t:1,1'']) stub_protocol 1 [''t''] cached_client of
         None \<Rightarrow> None
       | Some (Inl e, st') \<Rightarrow> Some (Inl e, st')
       | Some (Inr u, st') \<Rightarrow>
           (case topics_to_brokers st' (''t'', 1) of
              None \<Rightarrow> Some (Inl (PartitionDoesNotExist (''t'', 1)), st')
            | Some b' \<Rightarrow> Some (Inr b', st'))) = Some (Inr broker1)"
    by code_simp
  have r2: "result_of
      (case load_metadata_for_topics (scripted [Inr ''t:1'']) stub_protocol 1 [''t''] cached_client of
         None \<Rightarrow> None
       | Some (Inl e, st') \<Rightarrow> Some (Inl e, st')
       | Some (Inr u, st') \<Rightarrow>
           (case topics_to_brokers st' (''t'', 1) of
              None \<Rightarrow> Some (Inl (PartitionDoesNotExist (''t'', 1)), st')
            | Some b' \<Rightarrow> Some (Inr b', st'))) = Some (Inl (PartitionDoesNotExist (''t'', 1)))"
    by code_simp
  show ?thesis
    using get_leader_cached_or_one_refresh [of cached_client "''t''" 0 broker1 "scripted []" stub_protocol 0]
      get_leader_cached_or_one_refresh [of cached_client "''t''" 1 broker1 "scripted [Inr ''t:1,1'']" stub_protocol 1]
      get_leader_cached_or_one_refresh [of cached_client "''t''" 1 broker1 "scripted [Inr ''t:1'']" stub_protocol 1]
      c m r1 r2
    by simp
qed

section \<open>A transport failure during dispatch\<close>



section \<open>The broker-unaware request\<close>

lemma unaware_loop_log:
  "unaware_loop net rid req cs st = (r, st') \<Longrightarrow>
   \<exists>es. st' = st\<lparr>log := log st @ map2 (\<lambda>c e. Requested c rid req (Inl e)) (take (length es) cs) es
                    @ (case r of None \<Rightarrow> [] | Some resp \<Rightarrow> [Requested (cs ! length es) rid req (Inr resp)])\<rparr> \<and>
        (case r of None \<Rightarrow> length es = length cs | Some resp \<Rightarrow> length es < length cs)"
proof (induction cs arbitrary: st)
  case Nil
  then show ?case by auto
next
  case (Cons c cs)
  show ?case
  proof (cases "request_outcome net (log st) c rid req")
    case (Inr resp)
    with Cons.prems have "r = Some resp" "st' = st\<lparr>log := log st @ [Requested c rid req (Inr resp)]\<rparr>"
      by (auto simp: conn_request_def Let_def)
    then show ?thesis by (intro exI[of _ "[]"]) simp
  next
    case (Inl e)
    let ?st1 = "st\<lparr>log := log st @ [Requested c rid req (Inl e)]\<rparr>"
    from Cons.prems Inl have "unaware_loop net rid req cs ?st1 = (r, st')"
      by (auto simp: conn_request_def Let_def)
    from Cons.IH[OF this] obtain es where
      es: "st' = ?st1\<lparr>log := log ?st1 @ map2 (\<lambda>c e. Requested c rid req (Inl e)) (take (length es) cs) es
                    @ (case r of None \<Rightarrow> [] | Some resp \<Rightarrow> [Requested (cs ! length es) rid req (Inr resp)])\<rparr>"
        "(case r of None \<Rightarrow> length es = length cs | Some resp \<Rightarrow> length es < length cs)"
      by blast
    show ?thesis
      using es by (intro exI[of _ "e # es"]) (auto split: option.splits)
  qed
qed

lemma answers_append: "answers (xs @ ys) = answers xs @ answers ys"
  by (induction xs rule: answers.induct) auto

lemma answers_failed: "answers (map2 (\<lambda>c e. Requested c rid req (Inl e)) cs es) = []"
  by (induction cs es rule: list_induct2') auto

lemma send_broker_unaware_request_log:
  "send_broker_unaware_request net rid req st = (r, st') \<Longrightarrow>
   \<exists>es. st' = st\<lparr>log := log st @ map2 (\<lambda>c e. Requested c rid req (Inl e)) (take (length es) (conns st)) es
                    @ (case r of None \<Rightarrow> [] | Some resp \<Rightarrow> [Requested (conns st ! length es) rid req (Inr resp)])\<rparr> \<and>
        (case r of None \<Rightarrow> length es = length (conns st) | Some resp \<Rightarrow> length es < length (conns st))"
  unfolding send_broker_unaware_request_def by (rule unaware_loop_log)

lemma all_servers_failed:
  assumes "fst (send_broker_unaware_request net (ID_GEN st)
                  (encode_metadata_request proto (client_id st) (ID_GEN st) topics) (snd (next_id st))) = None"
  shows "\<exists>st'. load_metadata_for_topics net proto (Suc n) topics st = Some (Inl AllServersFailed, st') \<and>
               brokers st' = brokers st \<and> topics_to_brokers st' = topics_to_brokers st \<and>
               topic_partitions st' = topic_partitions st \<and> conns st' = conns st"
proof -
  obtain r st2 where s: "send_broker_unaware_request net (ID_GEN st)
      (encode_metadata_request proto (client_id st) (ID_GEN st) topics) (snd (next_id st)) = (r, st2)"
    by (cases "send_broker_unaware_request net (ID_GEN st)
      (encode_metadata_request proto (client_id st) (ID_GEN st) topics) (snd (next_id st))") auto
  with assms have r: "r = None" by simp
  from send_broker_unaware_request_log[OF s] obtain es where
    "st2 = (snd (next_id st))\<lparr>log := log (snd (next_id st)) @ map2 (\<lambda>c e. Requested c (ID_GEN st)
        (encode_metadata_request proto (client_id st) (ID_GEN st) topics) (Inl e))
        (take (length es) (conns (snd (next_id st)))) es @ (case r of None \<Rightarrow> [] | Some resp \<Rightarrow>
          [Requested (conns (snd (next_id st)) ! length es) (ID_GEN st)
            (encode_metadata_request proto (client_id st) (ID_GEN st) topics) (Inr resp)])\<rparr>"
    by blast
  then have f: "brokers st2 = brokers st" "topics_to_brokers st2 = topics_to_brokers st"
      "topic_partitions st2 = topic_partitions st" "conns st2 = conns st"
    by (simp_all add: next_id_def)
  have "load_metadata_for_topics net proto (Suc n) topics st = Some (Inl AllServersFailed, st2)"
    using s r by (simp add: next_id_def)
  with f show ?thesis by blast
qed

text \<open>
  C7. \<open>_send_broker_unaware_request\<close> calls \<open>request\<close> on the pools in the iteration order
  of \<open>self.conns\<close>: the log grows by one failed call for each pool of a prefix of that
  list, in order, followed by the successful call on the next pool if there is one; it
  returns \<open>None\<close> exactly when the prefix is the whole list. When it returns \<open>None\<close> for
  the metadata request, \<open>_load_metadata_for_topics\<close> raises "All servers failed" and
  \<open>brokers\<close>, \<open>topics_to_brokers\<close> and \<open>topic_partitions\<close> are as before the call.
\<close>

theorem unaware_tries_pools_in_order_and_failure_commits_nothing:
  "(\<exists>es. log (snd (send_broker_unaware_request net rid req st))
           = log st @ map2 (\<lambda>c e. Requested c rid req (Inl e)) (take (length es) (conns st)) es
               @ (case fst (send_broker_unaware_request net rid req st) of
                    None \<Rightarrow> []
                  | Some resp \<Rightarrow> [Requested (conns st ! length es) rid req (Inr resp)]) \<and>
         (case fst (send_broker_unaware_request net rid req st) of
            None \<Rightarrow> length es = length (conns st)
          | Some resp \<Rightarrow> length es < length (conns st))) \<and>
   (fst (send_broker_unaware_request net (ID_GEN st)
           (encode_metadata_request proto (client_id st) (ID_GEN st) topics) (snd (next_id st))) = None \<longrightarrow>
    (\<exists>st'. load_metadata_for_topics net proto (Suc n) topics st = Some (Inl AllServersFailed, st') \<and>
           brokers st' = brokers st \<and> topics_to_brokers st' = topics_to_brokers st \<and>
           topic_partitions st' = topic_partitions st))"
proof -
  obtain r st' where s: "send_broker_unaware_request net rid req st = (r, st')"
    by (cases "send_broker_unaware_request net rid req st") auto
  from send_broker_unaware_request_log[OF s] obtain es where
    "st' = st\<lparr>log := log st @ map2 (\<lambda>c e. Requested c rid req (Inl e)) (take (length es) (conns st)) es
                    @ (case r of None \<Rightarrow> [] | Some resp \<Rightarrow> [Requested (conns st ! length es) rid req (Inr resp)])\<rparr>"
    "(case r of None \<Rightarrow> length es = length (conns st) | Some resp \<Rightarrow> length es < length (conns st))"
    by blast
  then have first: "\<exists>es. log (snd (send_broker_unaware_request net rid req st))
           = log st @ map2 (\<lambda>c e. Requested c rid req (Inl e)) (take (length es) (conns st)) es
               @ (case fst (send_broker_unaware_request net rid req st) of
                    None \<Rightarrow> []
                  | Some resp \<Rightarrow> [Requested (conns st ! length es) rid req (Inr resp)]) \<and>
         (case fst (send_broker_unaware_request net rid req st) of
            None \<Rightarrow> length es = length (conns st)
          | Some resp \<Rightarrow> length es < length (conns st))"
    using s by (intro exI[of _ es]) simp
  show ?thesis
    using first all_servers_failed[of net st proto topics n] by blast
qed

theorem unaware_tries_pools_in_order_and_failure_commits_nothing_witness:
  "fst (send_broker_unaware_request (scripted [Inl ConnectionError, Inl (OtherException ''timeout'')])
          (ID_GEN two_pool_client)
          (encode_metadata_request stub_protocol (client_id two_pool_client) (ID_GEN two_pool_client) [''t''])
          (snd (next_id two_pool_client))) = None \<and>
   (\<exists>st'. load_metadata_for_topics (scripted [Inl ConnectionError, Inl (OtherException ''timeout'')])
            stub_protocol (Suc 0) [''t''] two_pool_client = Some (Inl AllServersFailed, st') \<and>
          brokers st' = brokers two_pool_client \<and>
          topics_to_brokers st' = topics_to_brokers two_pool_client \<and>
          topic_partitions st' = topic_partitions two_pool_client)"
proof -
  have h: "fst (send_broker_unaware_request (scripted [Inl ConnectionError, Inl (OtherException ''timeout'')])
          (ID_GEN two_pool_client)
          (encode_metadata_request stub_protocol (client_id two_pool_client) (ID_GEN two_pool_client) [''t''])
          (snd (next_id two_pool_client))) = None"
    by code_simp
  show ?thesis
    using h unaware_tries_pools_in_order_and_failure_commits_nothing
      [of "scripted [Inl ConnectionError, Inl (OtherException ''timeout'')]" _ _ two_pool_client stub_protocol "[''t'']" 0]
    by blast
qed

section \<open>Grouping, dispatching and reassembling\<close>


lemma group_loop_keys:
  "group_loop net proto n ps (keys0, gs0) st = Some (Inr (keys, grps), st1) \<Longrightarrow>
   keys = keys0 @ map payload_key ps"
proof (induction ps arbitrary: keys0 gs0 st)
  case Nil
  then show ?case by simp
next
  case (Cons p ps)
  from Cons.prems obtain l st' where
    "group_loop net proto n ps (keys0 @ [(p_topic p, p_partition p)], append_payload l p gs0) st'
       = Some (Inr (keys, grps), st1)"
    by (auto split: option.splits prod.splits sum.splits)
  from Cons.IH[OF this] show ?case by (simp add: payload_key_def)
qed


lemma accumulate_append: "accumulate (xs @ ys) acc = accumulate ys (accumulate xs acc)"
  by (induction xs arbitrary: acc) auto

lemma map_of_acc_set: "map_of (acc_set k v acc) k' = (if k' = k then Some v else map_of acc k')"
  by (induction k v acc rule: acc_set.induct) auto

lemma acc_set_nonempty: "acc_set k v acc \<noteq> []"
  by (cases acc) (auto split: if_splits)

lemma accumulate_empty: "accumulate rs acc = [] \<longleftrightarrow> rs = [] \<and> acc = []"
  by (induction rs arbitrary: acc) (auto simp: acc_set_nonempty)

lemma find_snoc:
  "find P (xs @ [x]) = (case find P xs of None \<Rightarrow> (if P x then Some x else None) | Some y \<Rightarrow> Some y)"
  by (induction xs) auto

lemma map_of_accumulate:
  "map_of (accumulate rs acc) k =
     (case find (\<lambda>r. response_key r = k) (rev rs) of None \<Rightarrow> map_of acc k | Some r \<Rightarrow> Some r)"
proof (induction rs arbitrary: acc)
  case Nil
  then show ?case by simp
next
  case (Cons r rs)
  show ?case
    by (simp add: Cons.IH find_snoc map_of_acc_set response_key_def split: option.splits)
qed

lemma map_of_accumulate_None:
  "map_of (accumulate rs []) k = None \<longleftrightarrow> k \<notin> response_key ` set rs"
proof -
  have "map_of (accumulate rs []) k = None \<longleftrightarrow> find (\<lambda>r. response_key r = k) (rev rs) = None"
    by (simp add: map_of_accumulate split: option.splits)
  also have "\<dots> \<longleftrightarrow> k \<notin> response_key ` set rs"
    by (auto simp: find_None_iff)
  finally show ?thesis .
qed

lemma generate_Inr:
  "generate acc ks = Inr rs \<Longrightarrow> map (map_of acc) ks = map Some rs"
  by (induction ks arbitrary: rs) (auto split: option.splits sum.splits)

lemma generate_Inl:
  "\<exists>k\<in>set ks. map_of acc k = None \<Longrightarrow>
   \<exists>k\<in>set ks. map_of acc k = None \<and> generate acc ks = Inl (ResponseKeyError k)"
proof (induction ks)
  case Nil
  then show ?case by simp
next
  case (Cons k ks)
  show ?case
  proof (cases "map_of acc k")
    case None
    then show ?thesis by simp
  next
    case (Some r)
    with Cons.prems have "\<exists>k\<in>set ks. map_of acc k = None" by auto
    from Cons.IH[OF this] Some show ?thesis by auto
  qed
qed

lemma dispatch_Inr:
  assumes "dispatch net enc dec (b, ps) (st, acc, failed) = Inr (st', acc', failed')"
  shows "\<exists>ev. log st' = log st @ [ev] \<and> event_address ev = Some (host b, port b) \<and>
               (raised ev = None \<or> raised ev = Some ConnectionError) \<and>
               failed' = failed @ (if raised ev = Some ConnectionError then ps else []) \<and>
               acc' = (case dec of None \<Rightarrow> acc | Some d \<Rightarrow> accumulate (concat (map d (answers [ev]))) acc)"
  using assms
  by (auto simp: dispatch_def conn_request_def conn_push_def Let_def next_id_def get_conn_for_broker_def
      split: prod.splits option.splits sum.splits pool_exception.splits if_splits)


lemma failed_groups_Cons:
  "failed_groups (g # grps) (ev # evs) =
     (if raised ev = Some ConnectionError then [g] else []) @ failed_groups grps evs"
  by (simp add: failed_groups_def)

lemma dispatch_loop_Inr:
  "dispatch_loop net enc dec grps (st, acc, failed) = Inr (st', acc', failed') \<Longrightarrow>
   \<exists>evs. log st' = log st @ evs \<and> length evs = length grps \<and>
         map event_address evs = map (\<lambda>g. Some (host (fst g), port (fst g))) grps \<and>
         (\<forall>ev\<in>set evs. raised ev = None \<or> raised ev = Some ConnectionError) \<and>
         failed' = failed @ concat (map snd (failed_groups grps evs)) \<and>
         acc' = (case dec of None \<Rightarrow> acc | Some d \<Rightarrow> accumulate (concat (map d (answers evs))) acc)"
proof (induction grps arbitrary: st acc failed)
  case Nil
  then show ?case by (auto simp: failed_groups_def split: option.splits)
next
  case (Cons g grps)
  obtain b ps where g: "g = (b, ps)" by (cases g)
  from Cons.prems obtain st1 acc1 failed1 where
    d: "dispatch net enc dec (b, ps) (st, acc, failed) = Inr (st1, acc1, failed1)" and
    l: "dispatch_loop net enc dec grps (st1, acc1, failed1) = Inr (st', acc', failed')"
    by (auto simp: g split: sum.splits)
  from dispatch_Inr[OF d] obtain ev where ev:
    "log st1 = log st @ [ev]" "event_address ev = Some (host b, port b)"
    "raised ev = None \<or> raised ev = Some ConnectionError"
    "failed1 = failed @ (if raised ev = Some ConnectionError then ps else [])"
    "acc1 = (case dec of None \<Rightarrow> acc | Some d \<Rightarrow> accumulate (concat (map d (answers [ev]))) acc)"
    by blast
  from Cons.IH[OF l] obtain evs where evs:
    "log st' = log st1 @ evs" "length evs = length grps"
    "map event_address evs = map (\<lambda>g. Some (host (fst g), port (fst g))) grps"
    "\<forall>ev\<in>set evs. raised ev = None \<or> raised ev = Some ConnectionError"
    "failed' = failed1 @ concat (map snd (failed_groups grps evs))"
    "acc' = (case dec of None \<Rightarrow> acc1 | Some d \<Rightarrow> accumulate (concat (map d (answers evs))) acc1)"
    by blast
  have a: "answers (ev # evs) = answers [ev] @ answers evs"
    using answers_append[of "[ev]" evs] by simp
  have "acc' = (case dec of None \<Rightarrow> acc | Some d \<Rightarrow> accumulate (concat (map d (answers (ev # evs)))) acc)"
    using ev(5) evs(6) by (simp add: a accumulate_append split: option.splits)
  moreover have "failed' = failed @ concat (map snd (failed_groups (g # grps) (ev # evs)))"
    using ev(4) evs(5) by (simp add: failed_groups_Cons g)
  ultimately show ?case
    using ev(1,2,3) evs(1,2,3,4) by (intro exI[of _ "ev # evs"]) (simp add: g)
qed



lemma append_payload_mset:
  "mset (concat (map snd (append_payload l p gs))) = add_mset p (mset (concat (map snd gs)))"
  by (induction l p gs rule: append_payload.induct) auto

lemma group_loop_mset:
  "group_loop net proto n ps (keys0, gs0) st = Some (Inr (keys, grps), st1) \<Longrightarrow>
   mset (concat (map snd grps)) = mset (concat (map snd gs0)) + mset ps"
proof (induction ps arbitrary: keys0 gs0 st)
  case Nil
  then show ?case by simp
next
  case (Cons p ps)
  from Cons.prems obtain l st' where
    "group_loop net proto n ps (keys0 @ [(p_topic p, p_partition p)], append_payload l p gs0) st'
       = Some (Inr (keys, grps), st1)"
    by (auto split: option.splits prod.splits sum.splits)
  from Cons.IH[OF this] show ?case by (simp add: append_payload_mset)
qed

lemma group_request_partitions_payloads:
  "group_request net proto n payloads st = Some (Inr (keys, grps), st1) \<Longrightarrow>
   mset (concat (map snd grps)) = mset payloads"
  unfolding group_request_def by (drule group_loop_mset) simp





lemma send_broker_aware_request_returns:
  assumes "send_broker_aware_request net proto items n payloads enc (Some d) st = Some (Inr resps, st')"
    and "group_request net proto n payloads st = Some (Inr (keys, grps), st1)"
    and "log st' = log st1 @ evs"
  shows "keys = map payload_key payloads \<and>
         resps = (if concat (map d (answers evs)) = [] then EmptyTuple
                  else Generator (accumulate (concat (map d (answers evs))) []) keys)"
proof (cases "dispatch_loop net enc (Some d) (items grps) (st1, [], [])")
  case (Inl a)
  with assms(1,2) show ?thesis
    by (auto simp: send_broker_aware_request_def split: prod.splits)
next
  case (Inr s2)
  obtain st2 acc failed where s2: "s2 = (st2, acc, failed)" by (cases s2)
  from dispatch_loop_Inr[OF Inr[unfolded s2]] obtain evs' where evs':
    "log st2 = log st1 @ evs'"
    "acc = accumulate (concat (map d (answers evs'))) []"
    by auto
  from assms(1,2) Inr have st': "st' = st2" "failed = []"
      "resps = (if acc \<noteq> [] then Generator acc keys else EmptyTuple)"
    by (auto simp: send_broker_aware_request_def s2 split: if_splits)
  with evs'(1) assms(3) have e: "evs' = evs" by simp
  have "keys = map payload_key payloads"
    using group_loop_keys[OF assms(2)[unfolded group_request_def]] by simp
  with st'(3) evs'(2) show ?thesis
    by (simp add: e accumulate_empty)
qed

text \<open>
  C10. Take a call of \<open>_send_broker_aware_request\<close> with a decoder that returns (so no
  pool raised), and let \<open>evs\<close> be what the dispatch loop added to the network log; the
  decoded responses are the decoder applied to the logged answers. If nothing was decoded,
  the call returns the empty tuple, whose consumption yields no response and no error.
  If something was decoded but the key of some input payload has no decoded response,
  consuming the returned generator raises \<open>KeyError\<close> for such a key.
\<close>

theorem missing_key_raises_and_nothing_decoded_is_empty:
  assumes "send_broker_aware_request net proto items n payloads enc (Some d) st = Some (Inr resps, st')"
    and "group_request net proto n payloads st = Some (Inr (keys, grps), st1)"
    and "log st' = log st1 @ evs"
  shows "(concat (map d (answers evs)) = [] \<longrightarrow> resps = EmptyTuple \<and> consume resps = Inr []) \<and>
         (concat (map d (answers evs)) \<noteq> [] \<and>
          \<not> payload_key ` set payloads \<subseteq> response_key ` set (concat (map d (answers evs))) \<longrightarrow>
            (\<exists>k\<in>payload_key ` set payloads.
               k \<notin> response_key ` set (concat (map d (answers evs))) \<and>
               consume resps = Inl (ResponseKeyError k)))"
proof -
  let ?dec = "concat (map d (answers evs))"
  note r = send_broker_aware_request_returns[OF assms]
  have first: "?dec = [] \<longrightarrow> resps = EmptyTuple \<and> consume resps = Inr []"
    using r by (simp add: consume_def)
  have second: "\<exists>k\<in>payload_key ` set payloads. k \<notin> response_key ` set ?dec \<and>
                  consume resps = Inl (ResponseKeyError k)"
    if ne: "?dec \<noteq> []" and miss: "\<not> payload_key ` set payloads \<subseteq> response_key ` set ?dec"
  proof -
    from r ne have resps: "resps = Generator (accumulate ?dec []) keys" and keys: "keys = map payload_key payloads"
      by simp_all
    from miss have "\<exists>k\<in>set keys. map_of (accumulate ?dec []) k = None"
      unfolding keys map_of_accumulate_None by auto
    from generate_Inl[OF this] obtain k where
      "k \<in> set keys" "map_of (accumulate ?dec []) k = None"
      "generate (accumulate ?dec []) keys = Inl (ResponseKeyError k)"
      by blast
    then show ?thesis
      unfolding map_of_accumulate_None by (auto simp: resps consume_def keys)
  qed
  from first second show ?thesis by blast
qed

lemma returned_cases:
  "(case out of Some (Inr x, st') \<Rightarrow> P x st' | _ \<Rightarrow> False) \<Longrightarrow>
   \<exists>x st'. out = Some (Inr x, st') \<and> P x st'"
proof (cases out)
  case None
  assume "case out of Some (Inr x, st') \<Rightarrow> P x st' | _ \<Rightarrow> False"
  with None show ?thesis by simp
next
  case (Some a)
  obtain r st' where a: "a = (r, st')" by (cases a)
  assume "case out of Some (Inr x, st') \<Rightarrow> P x st' | _ \<Rightarrow> False"
  with Some a show ?thesis by (cases r) auto
qed

lemma missing_key_run:
  "case send_broker_aware_request (scripted [Inr ''t:1,1'', Inr ''t0'']) stub_protocol rev 1
          [Payload ''t'' 0 ''m0'', Payload ''t'' 1 ''m1'']
          (encode_offset_request stub_protocol) (Some stub_decode) fresh_client of
     Some (Inr resps, st') \<Rightarrow>
       log st' = [Requested (''h1'', 9092) 0 ''metadata'' (Inr ''t:1,1''),
                  Requested (''h1'', 9092) 1 ''offset'' (Inr ''t0'')]
   | _ \<Rightarrow> False"
  by code_simp

lemma missing_key_grouping:
  "case group_request (scripted [Inr ''t:1,1'', Inr ''t0'']) stub_protocol 1
          [Payload ''t'' 0 ''m0'', Payload ''t'' 1 ''m1''] fresh_client of
     Some (Inr kg, st1) \<Rightarrow> log st1 = [Requested (''h1'', 9092) 0 ''metadata'' (Inr ''t:1,1'')]
   | _ \<Rightarrow> False"
  by code_simp

theorem missing_key_raises_and_nothing_decoded_is_empty_witness:
  "\<exists>resps st'.
     send_broker_aware_request (scripted [Inr ''t:1,1'', Inr ''t0'']) stub_protocol rev 1
       [Payload ''t'' 0 ''m0'', Payload ''t'' 1 ''m1'']
       (encode_offset_request stub_protocol) (Some stub_decode) fresh_client = Some (Inr resps, st') \<and>
     consume resps = Inl (ResponseKeyError (''t'', 1))"
proof -
  let ?net = "scripted [Inr ''t:1,1'', Inr ''t0'']"
  let ?ps = "[Payload ''t'' 0 ''m0'', Payload ''t'' 1 ''m1'']"
  let ?evs = "[Requested (''h1'', 9092) 1 ''offset'' (Inr ''t0'')]"
  from returned_cases[OF missing_key_run] obtain resps st' where
    s: "send_broker_aware_request ?net stub_protocol rev 1 ?ps
          (encode_offset_request stub_protocol) (Some stub_decode) fresh_client = Some (Inr resps, st')"
    and l': "log st' = Requested (''h1'', 9092) 0 ''metadata'' (Inr ''t:1,1'') # ?evs"
    by auto
  from returned_cases[OF missing_key_grouping] obtain kg st1 where
    g0: "group_request ?net stub_protocol 1 ?ps fresh_client = Some (Inr kg, st1)"
    and l1: "log st1 = [Requested (''h1'', 9092) 0 ''metadata'' (Inr ''t:1,1'')]"
    by auto
  obtain keys grps where kg: "kg = (keys, grps)" by (cases kg)
  have l: "log st' = log st1 @ ?evs" using l' l1 by simp
  have d: "concat (map stub_decode (answers ?evs)) = [Response ''t'' 0 0 ''x'']"
    by (simp add: stub_decode_def)
  have "\<exists>k\<in>payload_key ` set ?ps. k \<notin> response_key ` set [Response ''t'' 0 0 ''x''] \<and>
          consume resps = Inl (ResponseKeyError k)"
    using missing_key_raises_and_nothing_decoded_is_empty [OF s g0[unfolded kg] l] unfolding d
    by (simp add: payload_key_def response_key_def)
  then have "consume resps = Inl (ResponseKeyError (''t'', 1))"
    by (auto simp: payload_key_def response_key_def)
  with s show ?thesis by blast
qed

section \<open>Order of the returned responses\<close>

text \<open>
  C1, as the code has it. Take a call of \<open>_send_broker_aware_request\<close> with a decoder that
  returns, and a consumption of the returned sequence that raises no \<open>KeyError\<close>. If at
  least one response was decoded, the consumed list is as long as the input list and its
  \<open>i\<close>-th element is the accumulated response for the key of the \<open>i\<close>-th payload, which
  is the last decoded response carrying that key. If nothing was decoded, the consumed list
  is empty whatever the input was.
\<close>

theorem responses_follow_input_keys:
  assumes "send_broker_aware_request net proto items n payloads enc (Some d) st = Some (Inr resps, st')"
    and "group_request net proto n payloads st = Some (Inr (keys, grps), st1)"
    and "log st' = log st1 @ evs"
    and "consume resps = Inr rs"
  shows "(concat (map d (answers evs)) \<noteq> [] \<longrightarrow>
            length rs = length payloads \<and>
            (\<forall>i<length payloads.
               find (\<lambda>r. response_key r = payload_key (payloads ! i))
                 (rev (concat (map d (answers evs)))) = Some (rs ! i))) \<and>
         (concat (map d (answers evs)) = [] \<longrightarrow> rs = [])"
proof -
  let ?dec = "concat (map d (answers evs))"
  note r = send_broker_aware_request_returns[OF assms(1,2,3)]
  have empty: "?dec = [] \<longrightarrow> rs = []"
    using r assms(4) by (auto simp: consume_def)
  have full: "length rs = length payloads \<and>
      (\<forall>i<length payloads. find (\<lambda>r. response_key r = payload_key (payloads ! i)) (rev ?dec) = Some (rs ! i))"
    if ne: "?dec \<noteq> []"
  proof -
    from r ne have resps: "resps = Generator (accumulate ?dec []) keys" and keys: "keys = map payload_key payloads"
      by simp_all
    from assms(4) have "generate (accumulate ?dec []) keys = Inr rs"
      by (simp add: resps consume_def)
    from generate_Inr[OF this] have m: "map (map_of (accumulate ?dec [])) keys = map Some rs" .
    then have len: "length rs = length payloads"
      using keys by (metis length_map)
    have "find (\<lambda>r. response_key r = payload_key (payloads ! i)) (rev ?dec) = Some (rs ! i)"
      if i: "i < length payloads" for i
    proof -
      have "map (map_of (accumulate ?dec [])) keys ! i = map Some rs ! i" using m by simp
      then have "map_of (accumulate ?dec []) (payload_key (payloads ! i)) = Some (rs ! i)"
        using i len by (simp add: keys)
      then show ?thesis
        by (simp add: map_of_accumulate split: option.splits)
    qed
    with len show ?thesis by blast
  qed
  from empty full show ?thesis by blast
qed

lemma three_payloads_run:
  "case send_broker_aware_request (scripted [Inr ''t:1,1'', Inr ''t0,t1'']) stub_protocol rev 1
          [Payload ''t'' 0 ''m0'', Payload ''t'' 1 ''m1'', Payload ''t'' 0 ''m2'']
          (encode_offset_request stub_protocol) (Some stub_decode) fresh_client of
     Some (Inr resps, st') \<Rightarrow>
       log st' = [Requested (''h1'', 9092) 0 ''metadata'' (Inr ''t:1,1''),
                  Requested (''h1'', 9092) 1 ''offset'' (Inr ''t0,t1'')] \<and>
       consume resps = Inr [Response ''t'' 0 0 ''x'', Response ''t'' 1 0 ''y'', Response ''t'' 0 0 ''x'']
   | _ \<Rightarrow> False"
  by code_simp

lemma three_payloads_grouping:
  "case group_request (scripted [Inr ''t:1,1'', Inr ''t0,t1'']) stub_protocol 1
          [Payload ''t'' 0 ''m0'', Payload ''t'' 1 ''m1'', Payload ''t'' 0 ''m2''] fresh_client of
     Some (Inr kg, st1) \<Rightarrow> log st1 = [Requested (''h1'', 9092) 0 ''metadata'' (Inr ''t:1,1'')]
   | _ \<Rightarrow> False"
  by code_simp

theorem responses_follow_input_keys_witness:
  "length [Response ''t'' 0 0 ''x'', Response ''t'' 1 0 ''y'', Response ''t'' 0 0 ''x'']
     = length [Payload ''t'' 0 ''m0'', Payload ''t'' 1 ''m1'', Payload ''t'' 0 ''m2''] \<and>
   find (\<lambda>r. response_key r
               = payload_key ([Payload ''t'' 0 ''m0'', Payload ''t'' 1 ''m1'', Payload ''t'' 0 ''m2''] ! 0))
     (rev [Response ''t'' 0 0 ''x'', Response ''t'' 1 0 ''y''])
     = Some ([Response ''t'' 0 0 ''x'', Response ''t'' 1 0 ''y'', Response ''t'' 0 0 ''x''] ! 0) \<and>
   find (\<lambda>r. response_key r
               = payload_key ([Payload ''t'' 0 ''m0'', Payload ''t'' 1 ''m1'', Payload ''t'' 0 ''m2''] ! 1))
     (rev [Response ''t'' 0 0 ''x'', Response ''t'' 1 0 ''y''])
     = Some ([Response ''t'' 0 0 ''x'', Response ''t'' 1 0 ''y'', Response ''t'' 0 0 ''x''] ! 1) \<and>
   find (\<lambda>r. response_key r
               = payload_key ([Payload ''t'' 0 ''m0'', Payload ''t'' 1 ''m1'', Payload ''t'' 0 ''m2''] ! 2))
     (rev [Response ''t'' 0 0 ''x'', Response ''t'' 1 0 ''y''])
     = Some ([Response ''t'' 0 0 ''x'', Response ''t'' 1 0 ''y'', Response ''t'' 0 0 ''x''] ! 2)"
proof -
  let ?net = "scripted [Inr ''t:1,1'', Inr ''t0,t1'']"
  let ?ps = "[Payload ''t'' 0 ''m0'', Payload ''t'' 1 ''m1'', Payload ''t'' 0 ''m2'']"
  let ?evs = "[Requested (''h1'', 9092) 1 ''offset'' (Inr ''t0,t1'')]"
  let ?rs = "[Response ''t'' 0 0 ''x'', Response ''t'' 1 0 ''y'', Response ''t'' 0 0 ''x'']"
  let ?dec = "[Response ''t'' 0 0 ''x'', Response ''t'' 1 0 ''y'']"
  from returned_cases[OF three_payloads_run] obtain resps st' where
    s: "send_broker_aware_request ?net stub_protocol rev 1 ?ps
          (encode_offset_request stub_protocol) (Some stub_decode) fresh_client = Some (Inr resps, st')"
    and l': "log st' = Requested (''h1'', 9092) 0 ''metadata'' (Inr ''t:1,1'') # ?evs"
    and c: "consume resps = Inr ?rs"
    by auto
  from returned_cases[OF three_payloads_grouping] obtain kg st1 where
    g0: "group_request ?net stub_protocol 1 ?ps fresh_client = Some (Inr kg, st1)"
    and l1: "log st1 = [Requested (''h1'', 9092) 0 ''metadata'' (Inr ''t:1,1'')]"
    by auto
  obtain keys grps where kg: "kg = (keys, grps)" by (cases kg)
  have l: "log st' = log st1 @ ?evs" using l' l1 by simp
  have d: "concat (map stub_decode (answers ?evs)) = ?dec"
    by (simp add: stub_decode_def)
  have ne: "?dec \<noteq> []" by simp
  from responses_follow_input_keys [OF s g0[unfolded kg] l c] ne
  have len: "length ?rs = length ?ps"
    and all: "\<forall>i<length ?ps. find (\<lambda>r. response_key r = payload_key (?ps ! i)) (rev ?dec) = Some (?rs ! i)"
    unfolding d by blast+
  have "0 < length ?ps" "1 < length ?ps" "2 < length ?ps" by simp_all
  with all have
    "find (\<lambda>r. response_key r = payload_key (?ps ! 0)) (rev ?dec) = Some (?rs ! 0)"
    "find (\<lambda>r. response_key r = payload_key (?ps ! 1)) (rev ?dec) = Some (?rs ! 1)"
    "find (\<lambda>r. response_key r = payload_key (?ps ! 2)) (rev ?dec) = Some (?rs ! 2)"
    by blast+
  with len show ?thesis by blast
qed

text \<open>
  C1 as stated fails: the call below has a decoder and no transport failure, one input
  payload, and returns the empty tuple because the decoder found no response in the
  answer.
\<close>

theorem responses_follow_input_keys_counterexample:
  "result_of (send_broker_aware_request (scripted [Inr ''t:1,1'', Inr ''nothing'']) stub_protocol rev 1
       [Payload ''t'' 0 ''m0''] (encode_offset_request stub_protocol) (Some stub_decode) fresh_client)
     = Some (Inr EmptyTuple) \<and>
   log_after (send_broker_aware_request (scripted [Inr ''t:1,1'', Inr ''nothing'']) stub_protocol rev 1
       [Payload ''t'' 0 ''m0''] (encode_offset_request stub_protocol) (Some stub_decode) fresh_client)
     = [Requested (''h1'', 9092) 0 ''metadata'' (Inr ''t:1,1''),
        Requested (''h1'', 9092) 1 ''offset'' (Inr ''nothing'')] \<and>
   consume EmptyTuple = Inr [] \<and>
   length ([] :: response list) \<noteq> length [Payload ''t'' 0 ''m0'']"
  by code_simp

section \<open>Error codes in the facades\<close>

lemma check_loop_lenient:
  "check_loop proto mk_error False acc ks out
     = (case generate acc ks of Inl e \<Rightarrow> Inl e | Inr rs \<Rightarrow> Inr (out @ rs))"
  by (induction ks arbitrary: out) (auto split: option.splits sum.splits)

lemma check_loop_strict:
  "map (map_of acc) ks = map Some rs \<Longrightarrow>
   check_loop proto mk_error True acc ks out
     = (case find (\<lambda>r. r_error r \<noteq> 0) rs of
          None \<Rightarrow> Inr (out @ rs)
        | Some r \<Rightarrow>
            Inl (mk_error (case ERROR_CODE_MAPPING proto (r_error r) of
                             None \<Rightarrow> UnknownException | Some c \<Rightarrow> c) r))"
proof (induction ks arbitrary: out rs)
  case Nil
  then show ?case by simp
next
  case (Cons k ks)
  from Cons.prems obtain r rs' where rs: "rs = r # rs'" "map_of acc k = Some r"
      "map (map_of acc) ks = map Some rs'"
    by (cases rs) auto
  from Cons.IH[OF rs(3)] show ?case
    by (simp add: rs(1,2) split: option.splits)
qed

text \<open>
  C8. In strict mode a response with error code 3 makes every facade raise the class that
  the table gives for 3, and in lenient mode the response is returned as it is.
  \<open>send_produce_request\<close> and \<open>send_fetch_request\<close> put the \<open>TopicAndPartition\<close> and
  the code into the exception; \<open>send_offset_request\<close>, \<open>send_offset_commit_request\<close> and
  \<open>send_offset_fetch_request\<close>, on the same response, build the exception from the message
  template and the code alone, so their exception does not carry the \<open>TopicAndPartition\<close>
  that C8 says it carries.
\<close>

theorem offset_request_error_lacks_topic_partition:
  "result_of (send_produce_request (scripted [Inr ''t:1,1'', Inr ''t0!3'']) stub_protocol rev 1
       [Payload ''t'' 0 ''m0''] 1 1000 True fresh_client)
     = Some (Inl (ApiError (MappedException ''UnknownTopicOrPartitionError'')
                    ''ProduceRequest'' (Some (''t'', 0)) 3)) \<and>
   result_of (send_offset_request (scripted [Inr ''t:1,1'', Inr ''t0!3'']) stub_protocol rev 1
       [Payload ''t'' 0 ''m0''] True fresh_client)
     = Some (Inl (ApiError (MappedException ''UnknownTopicOrPartitionError'')
                    ''OffsetRequest'' None 3)) \<and>
   result_of (send_offset_request (scripted [Inr ''t:1,1'', Inr ''t0!3'']) stub_protocol rev 1
       [Payload ''t'' 0 ''m0''] False fresh_client)
     = Some (Inr [Response ''t'' 0 3 ''x'']) \<and>
   result_of (send_fetch_request (scripted [Inr ''t:1,1'', Inr ''t0!3'']) stub_protocol rev 1
       [Payload ''t'' 0 ''m0''] True 100 4096 fresh_client)
     = Some (Inl (ApiError (MappedException ''UnknownTopicOrPartitionError'')
                    ''FetchRequest'' (Some (''t'', 0)) 3)) \<and>
   result_of (send_offset_commit_request (scripted [Inr ''t:1,1'', Inr ''t0!3'']) stub_protocol rev 1
       ''g'' [Payload ''t'' 0 ''m0''] True fresh_client)
     = Some (Inl (ApiError (MappedException ''UnknownTopicOrPartitionError'')
                    ''OffsetCommitRequest'' None 3)) \<and>
   result_of (send_offset_fetch_request (scripted [Inr ''t:1,1'', Inr ''t0!3'']) stub_protocol rev 1
       ''g'' [Payload ''t'' 0 ''m0''] True fresh_client)
     = Some (Inl (ApiError (MappedException ''UnknownTopicOrPartitionError'')
                    ''OffsetCommitRequest'' None 3))"
  by code_simp

section \<open>The cluster view after a retried refresh\<close>

text \<open>
  C9. Construction against a cluster that first reports partition 0 of topic \<open>t\<close> without a
  leader and partition 1 led by broker 1, and on the retry reports the brokers \<open>{2}\<close> with
  both partitions led by broker 2. The retry commits both partitions for broker 2; the outer
  loop then goes on with partition 1 of the first response and commits it for broker 1, taken
  from the broker dict of the first response. The construction returns with
  \<open>topics_to_brokers[(t, 1)]\<close> a broker whose id is not a key of \<open>brokers\<close>, and with
  partition 1 twice in \<open>topic_partitions[t]\<close>: the invariant of C9 does not hold.
\<close>

theorem stale_leader_outside_broker_map_after_retry:
  "result_of (init (scripted [Inr ''t:-,1'', Inr ''t:2,2'']) stub_protocol 2 ''h1'' 9092 ''kafka-python'' 0 [])
     = Some (Inr ()) \<and>
   leader_after (init (scripted [Inr ''t:-,1'', Inr ''t:2,2'']) stub_protocol 2 ''h1'' 9092 ''kafka-python'' 0 [])
     (''t'', 1) = Some broker1 \<and>
   nodeId broker1 = 1 \<and>
   broker_after (init (scripted [Inr ''t:-,1'', Inr ''t:2,2'']) stub_protocol 2 ''h1'' 9092 ''kafka-python'' 0 [])
     1 = None \<and>
   broker_after (init (scripted [Inr ''t:-,1'', Inr ''t:2,2'']) stub_protocol 2 ''h1'' 9092 ''kafka-python'' 0 [])
     2 = Some broker2 \<and>
   partitions_after (init (scripted [Inr ''t:-,1'', Inr ''t:2,2'']) stub_protocol 2 ''h1'' 9092 ''kafka-python'' 0 [])
     ''t'' = Some [0, 1, 1] \<and>
   log_after (init (scripted [Inr ''t:-,1'', Inr ''t:2,2'']) stub_protocol 2 ''h1'' 9092 ''kafka-python'' 0 [])
     = [Requested (''h1'', 9092) 0 ''metadata'' (Inr ''t:-,1''), Slept 1,
        Requested (''h1'', 9092) 1 ''metadata'' (Inr ''t:2,2'')]"
  by code_simp

section \<open>What a refresh leaves unchanged\<close>

lemma reported_topics_append:
  "reported_topics proto (xs @ ys) = reported_topics proto xs \<union> reported_topics proto ys"
  by (auto simp: reported_topics_def answers_append)

lemma kept_trans:
  assumes "kept proto X st evs1 st1" and "kept proto Y st1 evs2 st2"
  shows "kept proto (X \<union> Y) st (evs1 @ evs2) st2"
  using assms unfolding kept_def reported_topics_append answers_append
  by (auto split: if_splits)

lemma kept_weaken: "kept proto X st evs st' \<Longrightarrow> X \<subseteq> Y \<Longrightarrow> kept proto Y st evs st'"
  unfolding kept_def by blast

lemma kept_reported:
  "kept proto X st evs st' \<Longrightarrow> X \<subseteq> reported_topics proto evs \<Longrightarrow> kept proto {} st evs st'"
  unfolding kept_def by blast

lemma kept_sleep: "kept proto X st [Slept k] (sleep k st)"
  by (simp add: kept_def sleep_def)

lemma kept_commit: "kept proto {t} st [] (commit_partition t p b st)"
  by (simp add: kept_def commit_partition_def)

lemma kept_pop: "kept proto {t} st [] (st\<lparr>topic_partitions := (topic_partitions st)(t := None)\<rparr>)"
  by (simp add: kept_def)

lemma kept_refl: "kept proto X st [] st"
  by (simp add: kept_def)

lemma unaware_answers:
  assumes "send_broker_unaware_request net rid req st = (r, st')"
  shows "\<exists>evs. st' = st\<lparr>log := log st @ evs\<rparr> \<and>
               answers evs = (case r of None \<Rightarrow> [] | Some resp \<Rightarrow> [resp])"
proof -
  from send_broker_unaware_request_log[OF assms] obtain es where
    st': "st' = st\<lparr>log := log st @ map2 (\<lambda>c e. Requested c rid req (Inl e)) (take (length es) (conns st)) es
                    @ (case r of None \<Rightarrow> [] | Some resp \<Rightarrow> [Requested (conns st ! length es) rid req (Inr resp)])\<rparr>"
    by blast
  let ?evs = "map2 (\<lambda>c e. Requested c rid req (Inl e)) (take (length es) (conns st)) es
                    @ (case r of None \<Rightarrow> [] | Some resp \<Rightarrow> [Requested (conns st ! length es) rid req (Inr resp)])"
  have "answers ?evs = (case r of None \<Rightarrow> [] | Some resp \<Rightarrow> [resp])"
    by (simp add: answers_append answers_failed split: option.splits)
  with st' show ?thesis by blast
qed

lemma refresh_frame:
  "\<forall>r st'. load_metadata_for_topics net proto n topics st = Some (r, st') \<longrightarrow>
     (\<exists>evs. kept proto {} st evs st' \<and> (answers evs = [] \<longrightarrow> r = Inl AllServersFailed))"
  "\<forall>r st'. topics_loop net proto n bs tps st = Some (r, st') \<longrightarrow>
     (\<exists>evs. kept proto (fst ` set tps) st evs st')"
  "\<forall>r st'. partitions_loop net proto n bs t ps st = Some (r, st') \<longrightarrow>
     (\<exists>evs. kept proto {t} st evs st')"
proof (induction net proto n topics st and net proto n bs tps st and net proto n bs t ps st
    rule: load_metadata_for_topics_topics_loop_partitions_loop.induct)
  case (1 net proto topics st)
  then show ?case by simp
next
  case (2 net proto n topics st)
  show ?case
  proof (intro allI impI)
    fix r st'
    assume run: "load_metadata_for_topics net proto (Suc n) topics st = Some (r, st')"
    let ?st1 = "st\<lparr>ID_GEN := Suc (ID_GEN st)\<rparr>"
    let ?req = "encode_metadata_request proto (client_id ?st1) (ID_GEN st) topics"
    obtain resp st2 where u: "send_broker_unaware_request net (ID_GEN st) ?req ?st1 = (resp, st2)"
      by (cases "send_broker_unaware_request net (ID_GEN st) ?req ?st1") auto
    from unaware_answers[OF u] obtain evs where
      st2: "st2 = ?st1\<lparr>log := log ?st1 @ evs\<rparr>"
      and ans: "answers evs = (case resp of None \<Rightarrow> [] | Some x \<Rightarrow> [x])"
      by blast
    show "\<exists>evs. kept proto {} st evs st' \<and> (answers evs = [] \<longrightarrow> r = Inl AllServersFailed)"
    proof (cases resp)
      case None
      with run u have "r = Inl AllServersFailed" "st' = st2"
        by (simp_all add: next_id_def)
      moreover have "kept proto {} st evs st2"
        using ans None by (simp add: kept_def st2)
      ultimately show ?thesis by blast
    next
      case (Some x)
      obtain bs' tps' where d: "decode_metadata_response proto x = (bs', tps')"
        by (cases "decode_metadata_response proto x") auto
      let ?st3 = "st2\<lparr>brokers := bs', topics_to_brokers := Map.empty\<rparr>"
      from run u Some d have l: "topics_loop net proto n bs' tps' ?st3 = Some (r, st')"
        by (simp add: next_id_def)
      have "\<exists>evs. kept proto (fst ` set tps') ?st3 evs st'"
        using "2.IH"[of "ID_GEN st" ?st1 resp st2 x bs' tps'] u[symmetric] Some d[symmetric] l
        by (simp add: next_id_def)
      then obtain evs' where k': "kept proto (fst ` set tps') ?st3 evs' st'" by blast
      have k: "kept proto {} st evs ?st3"
        using ans Some by (simp add: kept_def st2)
      have rep: "fst ` set tps' \<subseteq> reported_topics proto (evs @ evs')"
        using ans Some d by (auto simp: reported_topics_def answers_append)
      from kept_trans[OF k k'] have "kept proto (fst ` set tps') st (evs @ evs') st'" by simp
      from kept_reported[OF this rep] have "kept proto {} st (evs @ evs') st'" .
      moreover have "answers (evs @ evs') \<noteq> []"
        using ans Some by (simp add: answers_append)
      ultimately show ?thesis by blast
    qed
  qed
next
  case (3 net proto n bs st)
  show ?case using kept_refl by auto
next
  case (4 net proto n bs topic partitions rest st)
  let ?st1 = "st\<lparr>topic_partitions := (topic_partitions st)(topic := None)\<rparr>"
  show ?case
  proof (intro allI impI)
    fix r st'
    assume run: "topics_loop net proto n bs ((topic, partitions) # rest) st = Some (r, st')"
    show "\<exists>evs. kept proto (fst ` set ((topic, partitions) # rest)) st evs st'"
    proof (cases "partitions = []")
      case True
      with run have "load_metadata_for_topics net proto n [topic] (sleep 1 ?st1) = Some (r, st')"
        by (simp add: Let_def)
      with "4.IH"(1)[OF refl True] obtain evs where "kept proto {} (sleep 1 ?st1) evs st'"
        by blast
      from kept_trans[OF kept_trans[OF kept_pop kept_sleep] this]
      have "kept proto ({topic} \<union> {} \<union> {}) st ([] @ [Slept 1] @ evs) st'" by simp
      then show ?thesis
        by (intro exI[of _ "[] @ [Slept 1] @ evs"]) (erule kept_weaken, auto)
    next
      case False
      from run False obtain u st2 where
        p: "partitions_loop net proto n bs topic partitions ?st1 = Some (Inr u, st2) \<and>
            topics_loop net proto n bs rest st2 = Some (r, st') \<or>
            partitions_loop net proto n bs topic partitions ?st1 = Some (r, st')"
        by (auto simp: Let_def split: option.splits prod.splits sum.splits)
      from "4.IH"(2)[OF refl False] have ihp:
        "\<And>r' s'. partitions_loop net proto n bs topic partitions ?st1 = Some (r', s') \<Longrightarrow>
           \<exists>evs. kept proto {topic} ?st1 evs s'"
        by blast
      from p show ?thesis
      proof
        assume a: "partitions_loop net proto n bs topic partitions ?st1 = Some (Inr u, st2) \<and>
            topics_loop net proto n bs rest st2 = Some (r, st')"
        from ihp a obtain evs1 where k1: "kept proto {topic} ?st1 evs1 st2" by blast
        from "4.IH"(3)[OF refl False] a have "\<exists>evs. kept proto (fst ` set rest) st2 evs st'"
          by auto
        then obtain evs2 where k2: "kept proto (fst ` set rest) st2 evs2 st'" by blast
        from kept_trans[OF kept_trans[OF kept_pop k1] k2]
        have "kept proto ({topic} \<union> {topic} \<union> fst ` set rest) st ([] @ evs1 @ evs2) st'" by simp
        then show ?thesis
          by (intro exI[of _ "[] @ evs1 @ evs2"]) (erule kept_weaken, auto)
      next
        assume a: "partitions_loop net proto n bs topic partitions ?st1 = Some (r, st')"
        from ihp[OF a] obtain evs1 where k1: "kept proto {topic} ?st1 evs1 st'" by blast
        from kept_trans[OF kept_pop k1]
        have "kept proto ({topic} \<union> {topic}) st ([] @ evs1) st'" .
        then show ?thesis
          by (intro exI[of _ "[] @ evs1"]) (erule kept_weaken, auto)
      qed
    qed
  qed
next
  case (5 net proto n bs topic st)
  show ?case using kept_refl by auto
next
  case (6 net proto n bs topic p meta rest st)
  show ?case
  proof (intro allI impI)
    fix r st'
    assume run: "partitions_loop net proto n bs topic ((p, meta) # rest) st = Some (r, st')"
    show "\<exists>evs. kept proto {topic} st evs st'"
    proof (cases "leader meta = - 1")
      case True
      from "6.IH"(1)[OF True] have ihl:
        "\<And>r' s'. load_metadata_for_topics net proto n [topic] (sleep 1 st) = Some (r', s') \<Longrightarrow>
           \<exists>evs. kept proto {} (sleep 1 st) evs s'"
        by blast
      from run True obtain u st2 where
        c: "load_metadata_for_topics net proto n [topic] (sleep 1 st) = Some (Inr u, st2) \<and>
            partitions_loop net proto n bs topic rest st2 = Some (r, st') \<or>
            load_metadata_for_topics net proto n [topic] (sleep 1 st) = Some (r, st')"
        by (auto split: option.splits prod.splits sum.splits)
      then show ?thesis
      proof
        assume a: "load_metadata_for_topics net proto n [topic] (sleep 1 st) = Some (Inr u, st2) \<and>
            partitions_loop net proto n bs topic rest st2 = Some (r, st')"
        from ihl a obtain evs1 where k1: "kept proto {} (sleep 1 st) evs1 st2" by blast
        from "6.IH"(2)[OF True] a have "\<exists>evs. kept proto {topic} st2 evs st'"
          by auto
        then obtain evs2 where k2: "kept proto {topic} st2 evs2 st'" by blast
        from kept_trans[OF kept_trans[OF kept_sleep k1] k2]
        have "kept proto ({topic} \<union> {} \<union> {topic}) st ([Slept 1] @ evs1 @ evs2) st'" by simp
        then show ?thesis
          by (intro exI[of _ "[Slept 1] @ evs1 @ evs2"]) (erule kept_weaken, auto)
      next
        assume a: "load_metadata_for_topics net proto n [topic] (sleep 1 st) = Some (r, st')"
        from ihl[OF a] obtain evs1 where k1: "kept proto {} (sleep 1 st) evs1 st'" by blast
        from kept_trans[OF kept_sleep k1]
        have "kept proto ({topic} \<union> {}) st ([Slept 1] @ evs1) st'" .
        then show ?thesis
          by (intro exI[of _ "[Slept 1] @ evs1"]) (erule kept_weaken, auto)
      qed
    next
      case False
      show ?thesis
      proof (cases "bs (leader meta)")
        case None
        with run False have "st' = st" by simp
        then show ?thesis using kept_refl by auto
      next
        case (Some b)
        with run False have
          "partitions_loop net proto n bs topic rest (commit_partition topic p b st) = Some (r, st')"
          by simp
        with "6.IH"(3)[OF False Some] obtain evs where
          "kept proto {topic} (commit_partition topic p b st) evs st'"
          by blast
        from kept_trans[OF kept_commit this] show ?thesis by auto
      qed
    qed
  qed
qed

text \<open>
  C5, as the code has it. Let \<open>evs\<close> be what a returning or raising call of
  \<open>_load_metadata_for_topics\<close> added to the network log. If no metadata answer arrived, the
  call raised "All servers failed" and the cache is untouched. For every topic that none of
  the answers reports, the partition list is as before the call, and the leader entries
  of that topic are gone as soon as one answer arrived: \<open>topics_to_brokers\<close> is replaced as
  a whole, whatever topics were requested.
\<close>

theorem refresh_keeps_unreported_partition_lists:
  assumes "load_metadata_for_topics net proto n topics st = Some (r, st')"
  shows "\<exists>evs. log st' = log st @ evs \<and>
           (answers evs = [] \<longrightarrow> r = Inl AllServersFailed) \<and>
           (\<forall>t. t \<notin> reported_topics proto evs \<longrightarrow>
              topic_partitions st' t = topic_partitions st t \<and>
              (\<forall>p. topics_to_brokers st' (t, p)
                     = (if answers evs = [] then topics_to_brokers st (t, p) else None)))"
proof -
  from refresh_frame(1)[of net proto n topics st] assms obtain evs where
    "kept proto {} st evs st'" "answers evs = [] \<longrightarrow> r = Inl AllServersFailed"
    by blast
  then show ?thesis
    unfolding kept_def by (intro exI[of _ evs]) simp
qed

lemma other_topic_run:
  "case load_metadata_for_topics (scripted [Inr ''b:1'']) stub_protocol 1 [''b''] cached_client of
     Some (Inr u, st') \<Rightarrow> log st' = [Requested (''h1'', 9092) 1 ''metadata'' (Inr ''b:1'')]
   | _ \<Rightarrow> False"
  by code_simp

theorem refresh_keeps_unreported_partition_lists_witness:
  "\<exists>st'. load_metadata_for_topics (scripted [Inr ''b:1'']) stub_protocol 1 [''b''] cached_client
           = Some (Inr (), st') \<and>
         topic_partitions st' ''t'' = topic_partitions cached_client ''t'' \<and>
         topics_to_brokers st' (''t'', 0) = None"
proof -
  from returned_cases[OF other_topic_run] obtain u st' where
    s: "load_metadata_for_topics (scripted [Inr ''b:1'']) stub_protocol 1 [''b''] cached_client
          = Some (Inr u, st')"
    and l: "log st' = [Requested (''h1'', 9092) 1 ''metadata'' (Inr ''b:1'')]"
    by auto
  from refresh_keeps_unreported_partition_lists[OF s] obtain evs where
    e: "log st' = log cached_client @ evs"
    and k: "\<forall>t. t \<notin> reported_topics stub_protocol evs \<longrightarrow>
              topic_partitions st' t = topic_partitions cached_client t \<and>
              (\<forall>p. topics_to_brokers st' (t, p)
                     = (if answers evs = [] then topics_to_brokers cached_client (t, p) else None))"
    by blast
  have "log cached_client = []"
    by (simp add: cached_client_def fresh_client_def)
  with e l have evs: "evs = [Requested (''h1'', 9092) 1 ''metadata'' (Inr ''b:1'')]" by simp
  have "''t'' \<notin> reported_topics stub_protocol evs"
    by (simp add: evs reported_topics_def stub_protocol_def stub_decode_metadata_def)
  with k have "topic_partitions st' ''t'' = topic_partitions cached_client ''t''"
    "topics_to_brokers st' (''t'', 0) = None"
    by (simp_all add: evs)
  with s show ?thesis by simp
qed

text \<open>
  C5 as stated fails: the refresh below is requested for topic \<open>b\<close> and the response
  reports topic \<open>b\<close> only; the cached leader of \<open>(t, 0)\<close> is gone after it.
\<close>

theorem refresh_keeps_unreported_partition_lists_counterexample:
  "topics_to_brokers cached_client (''t'', 0) = Some broker1 \<and>
   snd (decode_metadata_response stub_protocol ''b:1'') = [(''b'', [(0, on_leader 1)])] \<and>
   result_of (load_metadata_for_topics (scripted [Inr ''b:1'']) stub_protocol 1 [''b''] cached_client)
     = Some (Inr ()) \<and>
   log_after (load_metadata_for_topics (scripted [Inr ''b:1'']) stub_protocol 1 [''b''] cached_client)
     = [Requested (''h1'', 9092) 1 ''metadata'' (Inr ''b:1'')] \<and>
   leader_after (load_metadata_for_topics (scripted [Inr ''b:1'']) stub_protocol 1 [''b''] cached_client)
     (''t'', 0) = None \<and>
   partitions_after (load_metadata_for_topics (scripted [Inr ''b:1'']) stub_protocol 1 [''b''] cached_client)
     ''t'' = Some [0]"
  by code_simp

section \<open>Unassigned topics and partitions during a refresh\<close>














end
